theory Spec2Isabelle
  imports Main
begin

section \<open>The pytest argument codec of \<open>src/extension.ts\<close>\<close>

text \<open>
  The extension keeps a form state (\<open>PytestConfig\<close>) and the workspace setting
  \<open>python.testing.pytestArgs\<close> (a list of strings) in step.  \<open>getCurrentConfig\<close>
  parses the stored list into a \<open>PytestConfig\<close>; \<open>updateWorkspaceConfig\<close> builds the
  list from a \<open>PytestConfig\<close> and writes it back.  The specification calls the two
  directions \<open>decode\<close> and \<open>encode\<close>.
\<close>

subsection \<open>Data model\<close>

text \<open>
  \<^verbatim>\<open>interface PytestConfig { tb?: string; numprocesses?: string; verbosity?: string;
    captureOutput?: boolean; headed?: boolean; delve?: boolean; browser?: string;
    slowmo?: boolean; tracing?: string; video?: string; showlocals?: boolean; }\<close>

  Every property is optional: \<open>None\<close> is JavaScript's \<open>undefined\<close>.
\<close>

record PytestConfig =
  tb :: "string option"
  numprocesses :: "string option"
  verbosity :: "string option"
  captureOutput :: "bool option"
  headed :: "bool option"
  delve :: "bool option"
  browser :: "string option"
  slowmo :: "bool option"
  tracing :: "string option"
  video :: "string option"
  showlocals :: "bool option"

text \<open>The object literal \<open>{}\<close>: no property is set.\<close>

definition empty_config :: PytestConfig where
  "empty_config =
     \<lparr>tb = None, numprocesses = None, verbosity = None, captureOutput = None,
      headed = None, delve = None, browser = None, slowmo = None, tracing = None,
      video = None, showlocals = None\<rparr>"

text \<open>
  The failures the two functions can meet: a method call on \<open>undefined\<close>, the missing
  workspace folder, and a rejected write to the settings store.
\<close>

datatype error = TypeError | NoWorkspaceFolder | UpdateFailed

text \<open>A workspace folder, as far as the codec sees it: the stored setting, if any.\<close>

record workspaceFolder =
  pytestArgs :: "string list option"

subsection \<open>JavaScript primitives\<close>

text \<open>\<open>s.startsWith(p)\<close>.\<close>

fun startsWith :: "string \<Rightarrow> string \<Rightarrow> bool" where
  "startsWith s [] = True"
| "startsWith [] (p # ps) = False"
| "startsWith (c # cs) (p # ps) = (c = p \<and> startsWith cs ps)"

text \<open>
  \<open>s.split(sep)\<close> for a one-character separator: the pieces between the occurrences
  of the separator, empty pieces included; a string without the separator is returned
  as the only piece.
\<close>

fun split :: "string \<Rightarrow> char \<Rightarrow> string list" where
  "split [] sep = [[]]"
| "split (c # cs) sep =
     (if c = sep then [] # split cs sep
      else (case split cs sep of [] \<Rightarrow> [[c]] | w # ws \<Rightarrow> (c # w) # ws))"

text \<open>\<open>xs[i]\<close>: reading past the end of an array yields \<open>undefined\<close>.\<close>

definition js_index :: "'a list \<Rightarrow> nat \<Rightarrow> 'a option" where
  "js_index xs i = (if i < length xs then Some (xs ! i) else None)"

text \<open>Truthiness of an optional string (the empty string is falsy) and boolean.\<close>

definition truthy_string :: "string option \<Rightarrow> bool" where
  "truthy_string v = (case v of None \<Rightarrow> False | Some s \<Rightarrow> s \<noteq> [])"

definition truthy_bool :: "bool option \<Rightarrow> bool" where
  "truthy_bool v = (case v of None \<Rightarrow> False | Some b \<Rightarrow> b)"

text \<open>A value inside a template literal, \<^verbatim>\<open>`${v}`\<close>.\<close>

definition template :: "string option \<Rightarrow> string" where
  "template v = (case v of None \<Rightarrow> ''undefined'' | Some s \<Rightarrow> s)"

text \<open>\<open>xs.push(x)\<close>, returning the array.\<close>

definition push :: "'a list \<Rightarrow> 'a \<Rightarrow> 'a list" where
  "push xs x = xs @ [x]"

subsection \<open>\<open>getCurrentConfig\<close>: from the token list to the configuration\<close>

text \<open>The body of the \<open>for\<close> loop: the \<open>if\<close>/\<open>else if\<close> chain on one argument.\<close>

definition parseArg :: "PytestConfig \<Rightarrow> string \<Rightarrow> PytestConfig" where
  "parseArg config arg =
     (if startsWith arg ''--tb='' then config\<lparr>tb := js_index (split arg CHR ''='') 1\<rparr>
      else if startsWith arg ''--numprocesses='' then
        config\<lparr>numprocesses := js_index (split arg CHR ''='') 1\<rparr>
      else if arg = ''-q'' then config\<lparr>verbosity := Some ''quiet''\<rparr>
      else if arg = ''-v'' then config\<lparr>verbosity := Some ''verbose''\<rparr>
      else if arg = ''-vv'' then config\<lparr>verbosity := Some ''more-verbose''\<rparr>
      else if arg = ''-vvv'' then config\<lparr>verbosity := Some ''very-verbose''\<rparr>
      else if arg = ''-s'' then config\<lparr>captureOutput := Some True\<rparr>
      else if arg = ''--showlocals'' then config\<lparr>showlocals := Some True\<rparr>
      else if arg = ''--headed'' then config\<lparr>headed := Some True\<rparr>
      else if arg = ''--delve=1'' then config\<lparr>delve := Some True\<rparr>
      else if startsWith arg ''--browser='' then
        config\<lparr>browser := js_index (split arg CHR ''='') 1\<rparr>
      else if arg = ''--slowmo'' then config\<lparr>slowmo := Some True\<rparr>
      else if startsWith arg ''--tracing='' then
        config\<lparr>tracing := js_index (split arg CHR ''='') 1\<rparr>
      else if startsWith arg ''--video='' then
        config\<lparr>video := js_index (split arg CHR ''='') 1\<rparr>
      else config)"

text \<open>
  \<^verbatim>\<open>for (let i = 0; i < pytestArgs.length; i++) { const arg = pytestArgs[i]; ... }\<close>
  A read past the end would give \<open>undefined\<close>, and \<open>arg.startsWith\<close> would throw.
\<close>

function parseArgs_loop :: "string list \<Rightarrow> nat \<Rightarrow> PytestConfig \<Rightarrow> error + PytestConfig" where
  "parseArgs_loop args i config =
     (if i < length args then
        (case js_index args i of
           None \<Rightarrow> Inl TypeError
         | Some arg \<Rightarrow> parseArgs_loop args (i + 1) (parseArg config arg))
      else Inr config)"
  by pat_completeness auto
termination
  by (relation "measure (\<lambda>(args, i, config). length args - i)") auto

text \<open>Lines 108 to 145: the parse of a given token list, starting from \<open>{}\<close>.\<close>

definition decode :: "string list \<Rightarrow> error + PytestConfig" where
  "decode args = parseArgs_loop args 0 empty_config"

text \<open>
  The whole function: without a workspace folder the result is \<open>{}\<close>; a missing
  setting reads as the empty list (\<^verbatim>\<open>workspaceConfig.get('pytestArgs') || []\<close>).
\<close>

definition getCurrentConfig :: "workspaceFolder option \<Rightarrow> error + PytestConfig" where
  "getCurrentConfig folder =
     (case folder of
        None \<Rightarrow> Inr empty_config
      | Some w \<Rightarrow> decode (case pytestArgs w of None \<Rightarrow> [] | Some args \<Rightarrow> args))"

subsection \<open>\<open>updateWorkspaceConfig\<close>: from the configuration to the token list\<close>

text \<open>The \<open>switch\<close> on \<open>config.verbosity\<close>; a value with no \<open>case\<close> pushes nothing.\<close>

definition verbosity_switch :: "string list \<Rightarrow> string option \<Rightarrow> string list" where
  "verbosity_switch newArgs v =
     (if v = Some ''quiet'' then push newArgs ''-q''
      else if v = Some ''verbose'' then push newArgs ''-v''
      else if v = Some ''more-verbose'' then push newArgs ''-vv''
      else if v = Some ''very-verbose'' then push newArgs ''-vvv''
      else newArgs)"

text \<open>Lines 156 to 224: the array \<open>newArgs\<close>, built by eleven checks in sequence.\<close>

definition encode :: "PytestConfig \<Rightarrow> string list" where
  "encode config =
     (let newArgs = [];
          newArgs = (if truthy_string (tb config) \<and> tb config \<noteq> Some ''none''
                     then push newArgs (''--tb='' @ template (tb config)) else newArgs);
          newArgs = (if truthy_string (numprocesses config) \<and> numprocesses config \<noteq> Some ''none''
                     then push newArgs (''--numprocesses='' @ template (numprocesses config))
                     else newArgs);
          newArgs = (if truthy_string (verbosity config)
                     then verbosity_switch newArgs (verbosity config) else newArgs);
          newArgs = (if truthy_bool (captureOutput config) then push newArgs ''-s'' else newArgs);
          newArgs = (if truthy_bool (showlocals config)
                     then push newArgs ''--showlocals'' else newArgs);
          newArgs = (if truthy_bool (headed config) then push newArgs ''--headed'' else newArgs);
          newArgs = (if truthy_bool (delve config) then push newArgs ''--delve=1'' else newArgs);
          newArgs = (if truthy_string (browser config) \<and> browser config \<noteq> Some ''none''
                     then push newArgs (''--browser='' @ template (browser config)) else newArgs);
          newArgs = (if truthy_bool (slowmo config) then push newArgs ''--slowmo'' else newArgs);
          newArgs = (if truthy_string (tracing config) \<and> tracing config \<noteq> Some ''none''
                     then push newArgs (''--tracing='' @ template (tracing config)) else newArgs);
          newArgs = (if truthy_string (video config) \<and> video config \<noteq> Some ''none''
                     then push newArgs (''--video='' @ template (video config)) else newArgs)
      in newArgs)"

text \<open>
  The whole function.  Without a workspace folder it reports an error and returns;
  a write the settings store rejects lands in the \<open>catch\<close> block.  The store is a
  collaborator: \<open>accepts\<close> says which writes it takes.
\<close>

definition updateWorkspaceConfig ::
    "workspaceFolder option \<Rightarrow> (string list \<Rightarrow> bool) \<Rightarrow> PytestConfig \<Rightarrow> error + string list" where
  "updateWorkspaceConfig folder accepts config =
     (case folder of
        None \<Rightarrow> Inl NoWorkspaceFolder
      | Some w \<Rightarrow>
          (let newArgs = encode config
           in if accepts newArgs then Inr newArgs else Inl UpdateFailed))"

subsection \<open>Vocabulary of the specification\<close>

text \<open>The eleven fields of a configuration, in the order in which the encoder visits them.\<close>

datatype field =
  Tb | Numprocesses | Verbosity | CaptureOutput | Showlocals | Headed | Delve
  | Browser | Slowmo | Tracing | Video

text \<open>The tokens that belong to a field: the test the decoder makes for it.\<close>

fun token_for :: "field \<Rightarrow> string \<Rightarrow> bool" where
  "token_for Tb a = startsWith a ''--tb=''"
| "token_for Numprocesses a = startsWith a ''--numprocesses=''"
| "token_for Verbosity a = (a = ''-q'' \<or> a = ''-v'' \<or> a = ''-vv'' \<or> a = ''-vvv'')"
| "token_for CaptureOutput a = (a = ''-s'')"
| "token_for Showlocals a = (a = ''--showlocals'')"
| "token_for Headed a = (a = ''--headed'')"
| "token_for Delve a = (a = ''--delve=1'')"
| "token_for Browser a = startsWith a ''--browser=''"
| "token_for Slowmo a = (a = ''--slowmo'')"
| "token_for Tracing a = startsWith a ''--tracing=''"
| "token_for Video a = startsWith a ''--video=''"

definition recognized :: "string \<Rightarrow> bool" where
  "recognized a =
     (token_for Tb a \<or> token_for Numprocesses a \<or> token_for Verbosity a
      \<or> token_for CaptureOutput a \<or> token_for Showlocals a \<or> token_for Headed a
      \<or> token_for Delve a \<or> token_for Browser a \<or> token_for Slowmo a
      \<or> token_for Tracing a \<or> token_for Video a)"

text \<open>Two configurations agree on one field.\<close>

fun same_field :: "field \<Rightarrow> PytestConfig \<Rightarrow> PytestConfig \<Rightarrow> bool" where
  "same_field Tb c d = (tb c = tb d)"
| "same_field Numprocesses c d = (numprocesses c = numprocesses d)"
| "same_field Verbosity c d = (verbosity c = verbosity d)"
| "same_field CaptureOutput c d = (captureOutput c = captureOutput d)"
| "same_field Showlocals c d = (showlocals c = showlocals d)"
| "same_field Headed c d = (headed c = headed d)"
| "same_field Delve c d = (delve c = delve d)"
| "same_field Browser c d = (browser c = browser d)"
| "same_field Slowmo c d = (slowmo c = slowmo d)"
| "same_field Tracing c d = (tracing c = tracing d)"
| "same_field Video c d = (video c = video d)"

text \<open>The last element of a list that satisfies a test, if there is one.\<close>

fun last_match :: "('a \<Rightarrow> bool) \<Rightarrow> 'a list \<Rightarrow> 'a option" where
  "last_match P [] = None"
| "last_match P (x # xs) =
     (case last_match P xs of Some y \<Rightarrow> Some y | None \<Rightarrow> if P x then Some x else None)"

text \<open>The token list cut down to the last token of one field.\<close>

definition last_token :: "field \<Rightarrow> string list \<Rightarrow> string list" where
  "last_token f args = (case last_match (token_for f) args of None \<Rightarrow> [] | Some a \<Rightarrow> [a])"

text \<open>The verbosity level each flag stands for.\<close>

definition verbosity_of_flag :: "string \<Rightarrow> string" where
  "verbosity_of_flag a =
     (if a = ''-q'' then ''quiet'' else if a = ''-v'' then ''verbose''
      else if a = ''-vv'' then ''more-verbose'' else ''very-verbose'')"

text \<open>
  What each field contributes to the encoded list, in the specification's words: a
  \<open>--key=value\<close> pair for a value that is present and not the sentinel, a single
  flag for a recognised verbosity level, a switch for a boolean that is on.
\<close>

definition value_token :: "string \<Rightarrow> string option \<Rightarrow> string list" where
  "value_token key v =
     (case v of None \<Rightarrow> [] | Some s \<Rightarrow> if s = [] \<or> s = ''none'' then [] else [key @ s])"

definition verbosity_token :: "string option \<Rightarrow> string list" where
  "verbosity_token v =
     (if v = Some ''quiet'' then [''-q''] else if v = Some ''verbose'' then [''-v'']
      else if v = Some ''more-verbose'' then [''-vv'']
      else if v = Some ''very-verbose'' then [''-vvv''] else [])"

definition flag_token :: "string \<Rightarrow> bool option \<Rightarrow> string list" where
  "flag_token flag b = (if b = Some True then [flag] else [])"

text \<open>
  A field in its absent or default state: a boolean that is unset or false, a string
  that is unset, empty (JavaScript's falsy string, the value of the form's ``Default''
  entry) or the sentinel \<open>none\<close>.
\<close>

definition default_string :: "string option \<Rightarrow> bool" where
  "default_string v = (v = None \<or> v = Some [] \<or> v = Some ''none'')"

definition default_bool :: "bool option \<Rightarrow> bool" where
  "default_bool b = (b = None \<or> b = Some False)"

fun absent_or_default :: "field \<Rightarrow> PytestConfig \<Rightarrow> bool" where
  "absent_or_default Tb c = default_string (tb c)"
| "absent_or_default Numprocesses c = default_string (numprocesses c)"
| "absent_or_default Verbosity c = default_string (verbosity c)"
| "absent_or_default CaptureOutput c = default_bool (captureOutput c)"
| "absent_or_default Showlocals c = default_bool (showlocals c)"
| "absent_or_default Headed c = default_bool (headed c)"
| "absent_or_default Delve c = default_bool (delve c)"
| "absent_or_default Browser c = default_string (browser c)"
| "absent_or_default Slowmo c = default_bool (slowmo c)"
| "absent_or_default Tracing c = default_string (tracing c)"
| "absent_or_default Video c = default_string (video c)"

text \<open>The documented domain of each field (section 3 of the specification).\<close>

definition tb_values :: "string list" where
  "tb_values = [''auto'', ''long'', ''short'', ''native'', ''no'']"

definition verbosity_values :: "string list" where
  "verbosity_values = [''quiet'', ''verbose'', ''more-verbose'', ''very-verbose'']"

definition browser_values :: "string list" where
  "browser_values = [''chromium'', ''firefox'', ''webkit'']"

definition recording_values :: "string list" where
  "recording_values = [''on'', ''off'', ''retain-on-failure'']"

definition digit :: "char \<Rightarrow> bool" where
  "digit c = (c \<in> set ''0123456789'')"

definition numprocesses_value :: "string \<Rightarrow> bool" where
  "numprocesses_value s = (s = ''auto'' \<or> (s \<noteq> [] \<and> list_all digit s))"

definition absent_or :: "(string \<Rightarrow> bool) \<Rightarrow> string option \<Rightarrow> bool" where
  "absent_or P v = (case v of None \<Rightarrow> True | Some s \<Rightarrow> P s)"

definition documented_domain :: "PytestConfig \<Rightarrow> bool" where
  "documented_domain c =
     (absent_or (\<lambda>s. s \<in> set tb_values) (tb c)
      \<and> absent_or numprocesses_value (numprocesses c)
      \<and> absent_or (\<lambda>s. s \<in> set verbosity_values) (verbosity c)
      \<and> absent_or (\<lambda>s. s \<in> set browser_values) (browser c)
      \<and> absent_or (\<lambda>s. s \<in> set recording_values) (tracing c)
      \<and> absent_or (\<lambda>s. s \<in> set recording_values) (video c))"

text \<open>
  A value that survives the round trip whatever its field: not empty, not the
  sentinel, and free of the separator \<open>=\<close>.
\<close>

definition plain_value :: "string \<Rightarrow> bool" where
  "plain_value s = (s \<noteq> [] \<and> s \<noteq> ''none'' \<and> CHR ''='' \<notin> set s)"

text \<open>
  Semantic equality of configurations: the strings agree, and each boolean is on in
  both or off in both (an unset boolean is off: every reader of a boolean field tests
  its truthiness).
\<close>

definition sem_eq :: "PytestConfig \<Rightarrow> PytestConfig \<Rightarrow> bool" where
  "sem_eq c d =
     (tb c = tb d \<and> numprocesses c = numprocesses d \<and> verbosity c = verbosity d
      \<and> browser c = browser d \<and> tracing c = tracing d \<and> video c = video d
      \<and> truthy_bool (captureOutput c) = truthy_bool (captureOutput d)
      \<and> truthy_bool (showlocals c) = truthy_bool (showlocals d)
      \<and> truthy_bool (headed c) = truthy_bool (headed d)
      \<and> truthy_bool (delve c) = truthy_bool (delve d)
      \<and> truthy_bool (slowmo c) = truthy_bool (slowmo d))"

text \<open>No boolean field holds an explicit \<open>false\<close>: off is written as unset.\<close>

definition unset_when_off :: "PytestConfig \<Rightarrow> bool" where
  "unset_when_off c =
     (captureOutput c \<noteq> Some False \<and> showlocals c \<noteq> Some False \<and> headed c \<noteq> Some False
      \<and> delve c \<noteq> Some False \<and> slowmo c \<noteq> Some False)"

text \<open>What a boolean reads as after a round trip: on stays on, off becomes unset.\<close>

definition on_or_unset :: "bool option \<Rightarrow> bool option" where
  "on_or_unset b = (if b = Some True then Some True else None)"

text \<open>The zero configuration with every boolean explicitly false.\<close>

definition zero_config :: PytestConfig where
  "zero_config =
     \<lparr>tb = None, numprocesses = None, verbosity = None, captureOutput = Some False,
      headed = Some False, delve = Some False, browser = None, slowmo = Some False,
      tracing = None, video = None, showlocals = Some False\<rparr>"

section \<open>Properties\<close>

declare parseArgs_loop.simps [simp del]

subsection \<open>The primitives\<close>

lemma startsWith_iff: "startsWith s p \<longleftrightarrow> (\<exists>r. s = p @ r)"
  by (induction s p rule: startsWith.induct) auto

lemma startsWithE: "startsWith s p \<Longrightarrow> (\<And>r. s = p @ r \<Longrightarrow> P) \<Longrightarrow> P"
  by (auto simp: startsWith_iff)

lemma split_nonempty: "split s sep \<noteq> []"
  by (induction s) (auto split: list.splits)

lemma split_no_sep: "sep \<notin> set s \<Longrightarrow> split s sep = [s]"
  by (induction s) auto

subsection \<open>The loop is a left fold of its body\<close>

lemma parseArgs_loop_foldl:
  "parseArgs_loop args i config = Inr (foldl parseArg config (drop i args))"
proof (induction args i config rule: parseArgs_loop.induct)
  case (1 args i config)
  show ?case
  proof (cases "i < length args")
    case True
    then have idx: "js_index args i = Some (args ! i)"
      by (simp add: js_index_def)
    have "drop i args = args ! i # drop (Suc i) args"
      using True by (simp add: Cons_nth_drop_Suc)
    with 1 [OF True idx] True idx show ?thesis
      by (subst parseArgs_loop.simps) simp
  next
    case False
    then show ?thesis
      by (subst parseArgs_loop.simps) simp
  qed
qed

lemma decode_foldl: "decode args = Inr (foldl parseArg empty_config args)"
  by (simp add: decode_def parseArgs_loop_foldl)

subsection \<open>The encoder, check by check\<close>

lemma push_if: "(if b then push xs x else xs) = xs @ (if b then [x] else [])"
  by (simp add: push_def)

lemma value_check:
  "(if truthy_string v \<and> v \<noteq> Some ''none'' then [key @ template v] else []) = value_token key v"
  by (cases v) (auto simp: truthy_string_def template_def value_token_def)

lemma verbosity_check:
  "(if truthy_string v then verbosity_switch xs v else xs) = xs @ verbosity_token v"
  by (cases v) (auto simp: truthy_string_def verbosity_switch_def verbosity_token_def push_def)

lemma flag_check: "(if truthy_bool b then [flag] else []) = flag_token flag b"
  by (cases b) (auto simp: truthy_bool_def flag_token_def)

lemma encode_tokens:
  "encode c =
     value_token ''--tb='' (tb c) @ value_token ''--numprocesses='' (numprocesses c)
     @ verbosity_token (verbosity c) @ flag_token ''-s'' (captureOutput c)
     @ flag_token ''--showlocals'' (showlocals c) @ flag_token ''--headed'' (headed c)
     @ flag_token ''--delve=1'' (delve c) @ value_token ''--browser='' (browser c)
     @ flag_token ''--slowmo'' (slowmo c) @ value_token ''--tracing='' (tracing c)
     @ value_token ''--video='' (video c)"
  unfolding encode_def push_if verbosity_check value_check flag_check Let_def
  by simp

subsection \<open>Defaults\<close>

text \<open>
  Claim C4.  Decoding the empty token list yields the zero configuration: every
  optional field is absent and every boolean is off (unset, which reads as false).
  Encoding the all-absent record \<open>{}\<close> yields the empty token list, and so does
  encoding the zero configuration whose booleans are explicitly false.
\<close>

theorem zero_configuration:
  "decode [] = Inr empty_config \<and> sem_eq empty_config zero_config
   \<and> encode empty_config = [] \<and> encode zero_config = []"
  by (simp add: decode_foldl encode_tokens empty_config_def zero_config_def sem_eq_def
      truthy_bool_def value_token_def verbosity_token_def flag_token_def)

subsection \<open>Totality\<close>

text \<open>
  Claim C8.  Both codec operations are total and failure-free.  Decoding any list of
  strings returns a configuration: the loop terminates and never reads past the end
  of the list, so no call on \<open>undefined\<close> is made; this holds for the whole of
  \<open>getCurrentConfig\<close> too, with or without a workspace folder and stored setting.
  Encoding returns a token list for every configuration: with a workspace folder and
  a store that takes the write, \<open>updateWorkspaceConfig\<close> returns the encoded list, and
  under no circumstances does it fail inside the codec.
\<close>

theorem codec_total:
  "(\<exists>c. decode args = Inr c) \<and> (\<exists>c. getCurrentConfig folder = Inr c)
   \<and> updateWorkspaceConfig (Some w) (\<lambda>newArgs. True) config = Inr (encode config)
   \<and> updateWorkspaceConfig folder accepts config \<noteq> Inl TypeError"
  by (simp add: decode_foldl getCurrentConfig_def updateWorkspaceConfig_def Let_def
      split: option.splits)

subsection \<open>One argument, field by field\<close>

lemma tb_parseArg:
  "tb (parseArg c a) = (if token_for Tb a then js_index (split a CHR ''='') 1 else tb c)"
  by (simp add: parseArg_def)

lemma numprocesses_parseArg:
  "numprocesses (parseArg c a) =
     (if token_for Numprocesses a then js_index (split a CHR ''='') 1 else numprocesses c)"
  by (auto simp: parseArg_def elim!: startsWithE)

lemma verbosity_parseArg:
  "verbosity (parseArg c a) =
     (if token_for Verbosity a then Some (verbosity_of_flag a) else verbosity c)"
  by (auto simp: parseArg_def verbosity_of_flag_def elim!: startsWithE)

lemma captureOutput_parseArg:
  "captureOutput (parseArg c a) = (if token_for CaptureOutput a then Some True else captureOutput c)"
  by (auto simp: parseArg_def elim!: startsWithE)

lemma showlocals_parseArg:
  "showlocals (parseArg c a) = (if token_for Showlocals a then Some True else showlocals c)"
  by (auto simp: parseArg_def elim!: startsWithE)

lemma headed_parseArg:
  "headed (parseArg c a) = (if token_for Headed a then Some True else headed c)"
  by (auto simp: parseArg_def elim!: startsWithE)

lemma delve_parseArg:
  "delve (parseArg c a) = (if token_for Delve a then Some True else delve c)"
  by (auto simp: parseArg_def elim!: startsWithE)

lemma browser_parseArg:
  "browser (parseArg c a) =
     (if token_for Browser a then js_index (split a CHR ''='') 1 else browser c)"
  by (auto simp: parseArg_def elim!: startsWithE)

lemma slowmo_parseArg:
  "slowmo (parseArg c a) = (if token_for Slowmo a then Some True else slowmo c)"
  by (auto simp: parseArg_def elim!: startsWithE)

lemma tracing_parseArg:
  "tracing (parseArg c a) =
     (if token_for Tracing a then js_index (split a CHR ''='') 1 else tracing c)"
  by (auto simp: parseArg_def elim!: startsWithE)

lemma video_parseArg:
  "video (parseArg c a) =
     (if token_for Video a then js_index (split a CHR ''='') 1 else video c)"
  by (auto simp: parseArg_def elim!: startsWithE)

lemma parseArg_unrecognized: "\<not> recognized a \<Longrightarrow> parseArg c a = c"
  by (simp add: recognized_def parseArg_def)

subsection \<open>Folding: the last token of a field decides\<close>

lemma last_match_holds: "last_match P xs = Some a \<Longrightarrow> P a"
  by (induction xs) (auto split: option.splits if_splits)

lemma foldl_last_match:
  assumes step: "\<And>c a. g (f c a) = (if P a then v a else g c)"
  shows "g (foldl f c xs) = (case last_match P xs of None \<Rightarrow> g c | Some a \<Rightarrow> v a)"
proof (induction xs arbitrary: c)
  case Nil
  show ?case by simp
next
  case (Cons x xs)
  show ?case
    by (simp add: Cons.IH step split: option.splits)
qed

lemma foldl_last_token:
  assumes step: "\<And>c a. g (parseArg c a) = (if token_for f a then v a else g c)"
  shows "g (foldl parseArg empty_config args) = g (foldl parseArg empty_config (last_token f args))"
proof (cases "last_match (token_for f) args")
  case None
  then show ?thesis
    by (simp add: foldl_last_match [of g parseArg, OF step] last_token_def)
next
  case (Some a)
  then have "token_for f a" by (rule last_match_holds)
  with Some show ?thesis
    by (simp add: foldl_last_match [of g parseArg, OF step] last_token_def step)
qed

lemma same_field_last_token:
  "same_field f (foldl parseArg empty_config args)
     (foldl parseArg empty_config (last_token f args))"
proof (cases f)
  case Tb
  then show ?thesis using foldl_last_token [of tb Tb, OF tb_parseArg] by simp
next
  case Numprocesses
  then show ?thesis using foldl_last_token [of numprocesses Numprocesses, OF numprocesses_parseArg] by simp
next
  case Verbosity
  then show ?thesis using foldl_last_token [of verbosity Verbosity, OF verbosity_parseArg] by simp
next
  case CaptureOutput
  then show ?thesis using foldl_last_token [of captureOutput CaptureOutput, OF captureOutput_parseArg] by simp
next
  case Showlocals
  then show ?thesis using foldl_last_token [of showlocals Showlocals, OF showlocals_parseArg] by simp
next
  case Headed
  then show ?thesis using foldl_last_token [of headed Headed, OF headed_parseArg] by simp
next
  case Delve
  then show ?thesis using foldl_last_token [of delve Delve, OF delve_parseArg] by simp
next
  case Browser
  then show ?thesis using foldl_last_token [of browser Browser, OF browser_parseArg] by simp
next
  case Slowmo
  then show ?thesis using foldl_last_token [of slowmo Slowmo, OF slowmo_parseArg] by simp
next
  case Tracing
  then show ?thesis using foldl_last_token [of tracing Tracing, OF tracing_parseArg] by simp
next
  case Video
  then show ?thesis using foldl_last_token [of video Video, OF video_parseArg] by simp
qed

lemma verbosity_foldl:
  "verbosity (foldl parseArg empty_config args) =
     map_option verbosity_of_flag (last_match (token_for Verbosity) args)"
proof -
  have "verbosity (foldl parseArg empty_config args) =
      (case last_match (token_for Verbosity) args of
         None \<Rightarrow> verbosity empty_config | Some a \<Rightarrow> Some (verbosity_of_flag a))"
    by (rule foldl_last_match [of verbosity parseArg, OF verbosity_parseArg])
  then show ?thesis
    by (cases "last_match (token_for Verbosity) args") (simp_all add: empty_config_def)
qed

lemma last_match_filter:
  "last_match P xs = (case filter P xs of [] \<Rightarrow> None | y # ys \<Rightarrow> Some (last (y # ys)))"
  by (induction xs) (auto split: list.splits)

text \<open>
  Claim C5.  Among several tokens for one field the last one, in left-to-right order,
  decides: each field of the decoded configuration is what decoding the last token
  for that field alone would give.  So the verbosity is the level of the last of the
  flags \<open>-q\<close>, \<open>-v\<close>, \<open>-vv\<close>, \<open>-vvv\<close> in the list (absent when there is none),
  and decoding \<open>["-q", "-vv"]\<close> yields the verbosity more-verbose.
\<close>

theorem last_match_wins:
  "(\<exists>c d. decode args = Inr c \<and> decode (last_token f args) = Inr d \<and> same_field f c d
      \<and> verbosity c = map_option verbosity_of_flag (last_match (token_for Verbosity) args))
   \<and> decode [''-q'', ''-vv''] = Inr (empty_config\<lparr>verbosity := Some ''more-verbose''\<rparr>)"
proof -
  have "decode [''-q'', ''-vv''] = Inr (empty_config\<lparr>verbosity := Some ''more-verbose''\<rparr>)"
    by (simp add: decode_foldl parseArg_def)
  then show ?thesis
    by (simp add: decode_foldl same_field_last_token verbosity_foldl)
qed

subsection \<open>The value of a \<open>--key=value\<close> token\<close>

lemma js_index_Cons_Suc: "js_index (x # xs) (Suc i) = js_index xs i"
  by (simp add: js_index_def)

lemma first_piece: "js_index (split s sep) 0 = Some (takeWhile (\<lambda>x. x \<noteq> sep) s)"
proof (induction s)
  case Nil
  show ?case by (simp add: js_index_def)
next
  case (Cons c s)
  then show ?case
    by (cases "split s sep") (auto simp: js_index_def split: if_splits)
qed

lemma value_tb:
  "js_index (split (''--tb='' @ v) CHR ''='') 1 = Some (takeWhile (\<lambda>x. x \<noteq> CHR ''='') v)"
  by (simp add: js_index_Cons_Suc first_piece)

lemma value_numprocesses:
  "js_index (split (''--numprocesses='' @ v) CHR ''='') 1 = Some (takeWhile (\<lambda>x. x \<noteq> CHR ''='') v)"
  by (simp add: js_index_Cons_Suc first_piece)

lemma value_browser:
  "js_index (split (''--browser='' @ v) CHR ''='') 1 = Some (takeWhile (\<lambda>x. x \<noteq> CHR ''='') v)"
  by (simp add: js_index_Cons_Suc first_piece)

lemma value_tracing:
  "js_index (split (''--tracing='' @ v) CHR ''='') 1 = Some (takeWhile (\<lambda>x. x \<noteq> CHR ''='') v)"
  by (simp add: js_index_Cons_Suc first_piece)

lemma value_video:
  "js_index (split (''--video='' @ v) CHR ''='') 1 = Some (takeWhile (\<lambda>x. x \<noteq> CHR ''='') v)"
  by (simp add: js_index_Cons_Suc first_piece)

lemma parseArg_tb:
  "parseArg c (''--tb='' @ v) = c\<lparr>tb := Some (takeWhile (\<lambda>x. x \<noteq> CHR ''='') v)\<rparr>"
  using value_tb [of v] by (simp add: parseArg_def)

lemma parseArg_numprocesses:
  "parseArg c (''--numprocesses='' @ v) = c\<lparr>numprocesses := Some (takeWhile (\<lambda>x. x \<noteq> CHR ''='') v)\<rparr>"
  using value_numprocesses [of v] by (simp add: parseArg_def)

lemma parseArg_browser:
  "parseArg c (''--browser='' @ v) = c\<lparr>browser := Some (takeWhile (\<lambda>x. x \<noteq> CHR ''='') v)\<rparr>"
  using value_browser [of v] by (simp add: parseArg_def)

lemma parseArg_tracing:
  "parseArg c (''--tracing='' @ v) = c\<lparr>tracing := Some (takeWhile (\<lambda>x. x \<noteq> CHR ''='') v)\<rparr>"
  using value_tracing [of v] by (simp add: parseArg_def)

lemma parseArg_video:
  "parseArg c (''--video='' @ v) = c\<lparr>video := Some (takeWhile (\<lambda>x. x \<noteq> CHR ''='') v)\<rparr>"
  using value_video [of v] by (simp add: parseArg_def)

lemma takeWhile_no_sep: "sep \<notin> set v \<Longrightarrow> takeWhile (\<lambda>x. x \<noteq> sep) v = v"
  by (induction v) auto

text \<open>
  Claim C3, as amended.  For a token made of one of the prefixes \<open>--tb=\<close>,
  \<open>--numprocesses=\<close>, \<open>--browser=\<close>, \<open>--tracing=\<close>, \<open>--video=\<close> and a suffix that
  contains no further \<open>=\<close>, the decoder sets the corresponding field to the entire
  suffix and leaves the other fields as they are.  Decoding
  \<open>["--numprocesses=auto", "--browser=chromium", "--headed"]\<close> yields numprocesses
  \<open>auto\<close>, browser \<open>chromium\<close>, headed on and nothing else.
\<close>

theorem value_is_suffix:
  assumes "CHR ''='' \<notin> set v"
  shows "parseArg c (''--tb='' @ v) = c\<lparr>tb := Some v\<rparr>
    \<and> parseArg c (''--numprocesses='' @ v) = c\<lparr>numprocesses := Some v\<rparr>
    \<and> parseArg c (''--browser='' @ v) = c\<lparr>browser := Some v\<rparr>
    \<and> parseArg c (''--tracing='' @ v) = c\<lparr>tracing := Some v\<rparr>
    \<and> parseArg c (''--video='' @ v) = c\<lparr>video := Some v\<rparr>
    \<and> decode [''--numprocesses=auto'', ''--browser=chromium'', ''--headed''] =
        Inr (empty_config\<lparr>numprocesses := Some ''auto'', browser := Some ''chromium'',
          headed := Some True\<rparr>)"
proof -
  have "decode [''--numprocesses=auto'', ''--browser=chromium'', ''--headed''] =
        Inr (empty_config\<lparr>numprocesses := Some ''auto'', browser := Some ''chromium'',
          headed := Some True\<rparr>)"
    by (simp add: decode_foldl parseArg_def js_index_def)
  with assms show ?thesis
    by (simp only: parseArg_tb parseArg_numprocesses parseArg_browser parseArg_tracing
        parseArg_video takeWhile_no_sep simp_thms)
qed

theorem value_is_suffix_witness:
  "CHR ''='' \<notin> set ''short''
   \<and> parseArg empty_config ''--tb=short'' = empty_config\<lparr>tb := Some ''short''\<rparr>
   \<and> parseArg empty_config ''--video=short'' = empty_config\<lparr>video := Some ''short''\<rparr>"
proof -
  have h: "CHR ''='' \<notin> set ''short''" by simp
  show ?thesis using h value_is_suffix [OF h, of empty_config] by simp
qed

text \<open>
  The claim as first stated, for every suffix, fails: \<open>arg.split('=')[1]\<close> is the piece
  between the first and the second \<open>=\<close> of the token, so the suffix \<open>a=b\<close> of
  \<open>--tb=a=b\<close> is read as \<open>a\<close>.
\<close>

theorem value_cut_at_equals_sign:
  "decode [''--tb=a=b''] = Inr (empty_config\<lparr>tb := Some ''a''\<rparr>)
   \<and> decode [''--tb=a=b''] \<noteq> Inr (empty_config\<lparr>tb := Some ''a=b''\<rparr>)"
  by (simp add: decode_foldl parseArg_def js_index_def empty_config_def)

subsection \<open>Unrecognised tokens\<close>

lemma foldl_filter_recognized:
  "foldl parseArg c (filter recognized args) = foldl parseArg c args"
  by (induction args arbitrary: c) (simp_all add: parseArg_unrecognized)

text \<open>
  Claim C6.  A token that passes none of the decoder's tests leaves the configuration
  as it is; dropping every such token from a list does not change what the list
  decodes to, and decoding never fails.  Decoding \<open>["--foo=bar", "-q"]\<close> yields the
  verbosity quiet and nothing else.
\<close>

theorem unknown_tokens_ignored:
  "(\<not> recognized a \<longrightarrow> parseArg c a = c)
   \<and> decode (filter recognized args) = decode args
   \<and> (\<exists>d. decode args = Inr d)
   \<and> \<not> recognized ''--foo=bar''
   \<and> decode [''--foo=bar'', ''-q''] = Inr (empty_config\<lparr>verbosity := Some ''quiet''\<rparr>)"
proof -
  have "\<not> recognized ''--foo=bar''"
    by (simp add: recognized_def)
  moreover have "decode [''--foo=bar'', ''-q''] = Inr (empty_config\<lparr>verbosity := Some ''quiet''\<rparr>)"
    by (simp add: decode_foldl parseArg_def)
  ultimately show ?thesis
    by (simp add: decode_foldl foldl_filter_recognized parseArg_unrecognized)
qed

theorem unknown_tokens_ignored_witness:
  "\<not> recognized ''--delve=2''
   \<and> parseArg (empty_config\<lparr>tb := Some ''long''\<rparr>) ''--delve=2'' = empty_config\<lparr>tb := Some ''long''\<rparr>
   \<and> decode (filter recognized [''--delve=2'', ''-s'', ''pytest'']) = decode [''--delve=2'', ''-s'', ''pytest'']"
proof -
  have h: "\<not> recognized ''--delve=2''" by (simp add: recognized_def)
  show ?thesis
    using h unknown_tokens_ignored [of "''--delve=2''" "empty_config\<lparr>tb := Some ''long''\<rparr>"
        "[''--delve=2'', ''-s'', ''pytest'']"]
    by simp
qed

subsection \<open>Boolean switches\<close>

lemma foldl_switch:
  assumes step: "\<And>c a. g (f c a) = (if a = k then Some True else g c)"
  shows "g (foldl f c xs) = (if k \<in> set xs then Some True else g c)"
  by (induction xs arbitrary: c) (simp_all add: step)

text \<open>
  Claim C9.  Each boolean field of the decoded configuration is on exactly when its
  token occurs in the list, and unset otherwise: \<open>-s\<close> for captureOutput,
  \<open>--showlocals\<close> for showlocals, \<open>--headed\<close> for headed, \<open>--slowmo\<close> for slowmo and
  the exact token \<open>--delve=1\<close> for delve (\<open>--delve=2\<close> sets nothing).  No argument
  turns off a boolean that is on.
\<close>

theorem switches:
  "(\<exists>c. decode args = Inr c
      \<and> captureOutput c = (if ''-s'' \<in> set args then Some True else None)
      \<and> showlocals c = (if ''--showlocals'' \<in> set args then Some True else None)
      \<and> headed c = (if ''--headed'' \<in> set args then Some True else None)
      \<and> slowmo c = (if ''--slowmo'' \<in> set args then Some True else None)
      \<and> delve c = (if ''--delve=1'' \<in> set args then Some True else None))
   \<and> decode [''--delve=2''] = Inr empty_config
   \<and> (captureOutput c0 = Some True \<longrightarrow> captureOutput (parseArg c0 a) = Some True)
   \<and> (showlocals c0 = Some True \<longrightarrow> showlocals (parseArg c0 a) = Some True)
   \<and> (headed c0 = Some True \<longrightarrow> headed (parseArg c0 a) = Some True)
   \<and> (slowmo c0 = Some True \<longrightarrow> slowmo (parseArg c0 a) = Some True)
   \<and> (delve c0 = Some True \<longrightarrow> delve (parseArg c0 a) = Some True)"
proof -
  have "captureOutput (foldl parseArg empty_config args) = (if ''-s'' \<in> set args then Some True else None)"
    using foldl_switch [of captureOutput parseArg "''-s''" empty_config args]
    by (simp add: captureOutput_parseArg empty_config_def)
  moreover have "showlocals (foldl parseArg empty_config args) = (if ''--showlocals'' \<in> set args then Some True else None)"
    using foldl_switch [of showlocals parseArg "''--showlocals''" empty_config args]
    by (simp add: showlocals_parseArg empty_config_def)
  moreover have "headed (foldl parseArg empty_config args) = (if ''--headed'' \<in> set args then Some True else None)"
    using foldl_switch [of headed parseArg "''--headed''" empty_config args]
    by (simp add: headed_parseArg empty_config_def)
  moreover have "slowmo (foldl parseArg empty_config args) = (if ''--slowmo'' \<in> set args then Some True else None)"
    using foldl_switch [of slowmo parseArg "''--slowmo''" empty_config args]
    by (simp add: slowmo_parseArg empty_config_def)
  moreover have "delve (foldl parseArg empty_config args) = (if ''--delve=1'' \<in> set args then Some True else None)"
    using foldl_switch [of delve parseArg "''--delve=1''" empty_config args]
    by (simp add: delve_parseArg empty_config_def)
  moreover have "decode [''--delve=2''] = Inr empty_config"
    by (simp add: decode_foldl parseArg_def)
  ultimately show ?thesis
    by (simp add: decode_foldl captureOutput_parseArg showlocals_parseArg headed_parseArg
        slowmo_parseArg delve_parseArg)
qed


theorem switches_witness:
  "(\<exists>c. decode [''-s'', ''--delve=2'', ''--headed''] = Inr c
      \<and> captureOutput c = Some True \<and> showlocals c = None \<and> headed c = Some True
      \<and> slowmo c = None \<and> delve c = None)
   \<and> captureOutput (parseArg (zero_config\<lparr>captureOutput := Some True\<rparr>) ''-q'') = Some True
   \<and> showlocals (parseArg (zero_config\<lparr>showlocals := Some True\<rparr>) ''--tb=no'') = Some True
   \<and> headed (parseArg (zero_config\<lparr>headed := Some True\<rparr>) ''--headed'') = Some True
   \<and> slowmo (parseArg (zero_config\<lparr>slowmo := Some True\<rparr>) ''--slow'') = Some True
   \<and> delve (parseArg (zero_config\<lparr>delve := Some True\<rparr>) ''--delve=0'') = Some True"
proof -
  let ?on = "zero_config\<lparr>captureOutput := Some True, showlocals := Some True,
    headed := Some True, slowmo := Some True, delve := Some True\<rparr>"
  have on: "captureOutput ?on = Some True" "showlocals ?on = Some True" "headed ?on = Some True"
    "slowmo ?on = Some True" "delve ?on = Some True"
    by simp_all
  have "\<exists>c. decode [''-s'', ''--delve=2'', ''--headed''] = Inr c
      \<and> captureOutput c = Some True \<and> showlocals c = None \<and> headed c = Some True
      \<and> slowmo c = None \<and> delve c = None"
    using on switches [of "[''-s'', ''--delve=2'', ''--headed'']" ?on "''-q''"]
    by simp
  moreover have "captureOutput (parseArg (zero_config\<lparr>captureOutput := Some True\<rparr>) ''-q'') = Some True"
    using switches [of "[]" "zero_config\<lparr>captureOutput := Some True\<rparr>" "''-q''"] by simp
  moreover have "showlocals (parseArg (zero_config\<lparr>showlocals := Some True\<rparr>) ''--tb=no'') = Some True"
    using switches [of "[]" "zero_config\<lparr>showlocals := Some True\<rparr>" "''--tb=no''"] by simp
  moreover have "headed (parseArg (zero_config\<lparr>headed := Some True\<rparr>) ''--headed'') = Some True"
    using switches [of "[]" "zero_config\<lparr>headed := Some True\<rparr>" "''--headed''"] by simp
  moreover have "slowmo (parseArg (zero_config\<lparr>slowmo := Some True\<rparr>) ''--slow'') = Some True"
    using switches [of "[]" "zero_config\<lparr>slowmo := Some True\<rparr>" "''--slow''"] by simp
  moreover have "delve (parseArg (zero_config\<lparr>delve := Some True\<rparr>) ''--delve=0'') = Some True"
    using switches [of "[]" "zero_config\<lparr>delve := Some True\<rparr>" "''--delve=0''"] by simp
  ultimately show ?thesis by blast
qed

subsection \<open>The encoded list\<close>

lemma length_tokens:
  "length (value_token key v) \<le> 1" "length (verbosity_token w) \<le> 1" "length (flag_token flag b) \<le> 1"
  by (simp_all add: value_token_def verbosity_token_def flag_token_def split: option.splits)

text \<open>
  Claim C2.  The encoded list is the concatenation, in this fixed order, of what each
  field contributes: traceback (\<open>--tb=v\<close>), process count (\<open>--numprocesses=v\<close>),
  the verbosity flag, \<open>-s\<close>, \<open>--showlocals\<close>, \<open>--headed\<close>, \<open>--delve=1\<close>,
  \<open>--browser=v\<close>, \<open>--slowmo\<close>, \<open>--tracing=v\<close>, \<open>--video=v\<close>; each contribution is
  empty or a single token and depends on that field alone.  Encoding traceback
  \<open>short\<close>, verbosity \<open>verbose\<close> and captureOutput on gives
  \<open>["--tb=short", "-v", "-s"]\<close>, in whichever order the three fields were set, and a
  configuration with every field populated gives all eleven tokens in the order above.
\<close>

theorem canonical_order:
  "encode c =
     value_token ''--tb='' (tb c) @ value_token ''--numprocesses='' (numprocesses c)
     @ verbosity_token (verbosity c) @ flag_token ''-s'' (captureOutput c)
     @ flag_token ''--showlocals'' (showlocals c) @ flag_token ''--headed'' (headed c)
     @ flag_token ''--delve=1'' (delve c) @ value_token ''--browser='' (browser c)
     @ flag_token ''--slowmo'' (slowmo c) @ value_token ''--tracing='' (tracing c)
     @ value_token ''--video='' (video c)
   \<and> length (value_token key v) \<le> 1 \<and> length (verbosity_token w) \<le> 1
   \<and> length (flag_token flag b) \<le> 1
   \<and> encode (empty_config\<lparr>tb := Some ''short'', verbosity := Some ''verbose'',
        captureOutput := Some True\<rparr>) = [''--tb=short'', ''-v'', ''-s'']
   \<and> encode (empty_config\<lparr>captureOutput := Some True, verbosity := Some ''verbose'',
        tb := Some ''short''\<rparr>) = [''--tb=short'', ''-v'', ''-s'']
   \<and> encode \<lparr>tb = Some ''long'', numprocesses = Some ''4'', verbosity = Some ''more-verbose'',
        captureOutput = Some True, headed = Some True, delve = Some True,
        browser = Some ''firefox'', slowmo = Some True, tracing = Some ''on'',
        video = Some ''off'', showlocals = Some True\<rparr> =
       [''--tb=long'', ''--numprocesses=4'', ''-vv'', ''-s'', ''--showlocals'', ''--headed'',
        ''--delve=1'', ''--browser=firefox'', ''--slowmo'', ''--tracing=on'', ''--video=off'']"
proof -
  have "encode (empty_config\<lparr>tb := Some ''short'', verbosity := Some ''verbose'',
        captureOutput := Some True\<rparr>) = [''--tb=short'', ''-v'', ''-s'']"
    by (simp add: encode_tokens empty_config_def value_token_def verbosity_token_def flag_token_def)
  moreover have "encode (empty_config\<lparr>captureOutput := Some True, verbosity := Some ''verbose'',
        tb := Some ''short''\<rparr>) = [''--tb=short'', ''-v'', ''-s'']"
    by (simp add: encode_tokens empty_config_def value_token_def verbosity_token_def flag_token_def)
  moreover have "encode \<lparr>tb = Some ''long'', numprocesses = Some ''4'', verbosity = Some ''more-verbose'',
        captureOutput = Some True, headed = Some True, delve = Some True,
        browser = Some ''firefox'', slowmo = Some True, tracing = Some ''on'',
        video = Some ''off'', showlocals = Some True\<rparr> =
       [''--tb=long'', ''--numprocesses=4'', ''-vv'', ''-s'', ''--showlocals'', ''--headed'',
        ''--delve=1'', ''--browser=firefox'', ''--slowmo'', ''--tracing=on'', ''--video=off'']"
    by (simp add: encode_tokens value_token_def verbosity_token_def flag_token_def)
  ultimately show ?thesis
    using encode_tokens [of c] length_tokens by simp
qed

subsection \<open>Tokens of one field in the encoded list\<close>

lemma filter_value_token:
  "(\<And>s. \<not> P (key @ s)) \<Longrightarrow> filter P (value_token key v) = []"
  by (simp add: value_token_def split: option.splits)

lemma filter_flag_token: "\<not> P flag \<Longrightarrow> filter P (flag_token flag b) = []"
  by (simp add: flag_token_def)

lemma filter_verbosity_token:
  "\<not> P ''-q'' \<Longrightarrow> \<not> P ''-v'' \<Longrightarrow> \<not> P ''-vv'' \<Longrightarrow> \<not> P ''-vvv'' \<Longrightarrow>
   filter P (verbosity_token v) = []"
  by (simp add: verbosity_token_def)

lemma value_token_default: "default_string v \<Longrightarrow> value_token key v = []"
  by (auto simp: default_string_def value_token_def)

lemma verbosity_token_default: "default_string v \<Longrightarrow> verbosity_token v = []"
  by (auto simp: default_string_def verbosity_token_def)

lemma flag_token_default: "default_bool b \<Longrightarrow> flag_token flag b = []"
  by (auto simp: default_bool_def flag_token_def)

lemmas filter_other_tokens = filter_value_token filter_flag_token filter_verbosity_token
lemmas default_tokens = value_token_default verbosity_token_default flag_token_default

text \<open>
  Claim C7.  The encoder emits no token for a field in its absent or default state:
  when a boolean is false or unset, or a string field is unset, empty or equal to the
  sentinel \<open>none\<close>, the encoded list holds no token of that field.
\<close>

theorem no_token_for_default:
  assumes "absent_or_default f c"
  shows "filter (token_for f) (encode c) = []"
  using assms
  by (cases f) (simp_all add: encode_tokens filter_other_tokens default_tokens)


theorem no_token_for_default_witness:
  "absent_or_default Browser
     \<lparr>tb = Some ''long'', numprocesses = Some ''4'', verbosity = Some ''quiet'',
      captureOutput = Some True, headed = Some False, delve = None, browser = Some ''none'',
      slowmo = Some True, tracing = Some ''on'', video = None, showlocals = Some True\<rparr>
   \<and> filter (token_for Browser)
     (encode \<lparr>tb = Some ''long'', numprocesses = Some ''4'', verbosity = Some ''quiet'',
      captureOutput = Some True, headed = Some False, delve = None, browser = Some ''none'',
      slowmo = Some True, tracing = Some ''on'', video = None, showlocals = Some True\<rparr>) = []"
proof -
  let ?c = "\<lparr>tb = Some ''long'', numprocesses = Some ''4'', verbosity = Some ''quiet'',
      captureOutput = Some True, headed = Some False, delve = None, browser = Some ''none'',
      slowmo = Some True, tracing = Some ''on'', video = None, showlocals = Some True\<rparr>"
  have h: "absent_or_default Browser ?c"
    by (simp add: default_string_def)
  show ?thesis
    using h no_token_for_default [OF h] by simp
qed

subsection \<open>Unrecognised verbosity levels\<close>

lemma verbosity_token_unknown: "v \<notin> set verbosity_values \<Longrightarrow> verbosity_token (Some v) = []"
  by (auto simp: verbosity_token_def verbosity_values_def)

lemma verbosity_token_absent: "verbosity_token None = []"
  by (simp add: verbosity_token_def)

lemma value_token_present: "v \<noteq> [] \<Longrightarrow> v \<noteq> ''none'' \<Longrightarrow> value_token key (Some v) = [key @ v]"
  by (simp add: value_token_def)

text \<open>
  Claim C10.  When the verbosity field holds a value other than \<open>quiet\<close>, \<open>verbose\<close>,
  \<open>more-verbose\<close>, \<open>very-verbose\<close>, the encoder emits no verbosity flag: the encoded list
  is the one it would be with the verbosity unset.  The other string fields are not
  checked against a list of values: a traceback, process count, browser, tracing or
  video value that is present (a non-empty string, by the truthiness test) and not
  \<open>none\<close> goes into its token as it is.
\<close>

theorem unknown_verbosity_dropped:
  assumes "verbosity c = Some v" and "v \<notin> set verbosity_values"
  shows "filter (token_for Verbosity) (encode c) = []
    \<and> encode c = encode (c\<lparr>verbosity := None\<rparr>)
    \<and> (tb c = Some w \<and> w \<noteq> [] \<and> w \<noteq> ''none'' \<longrightarrow> ''--tb='' @ w \<in> set (encode c))
    \<and> (numprocesses c = Some w \<and> w \<noteq> [] \<and> w \<noteq> ''none''
        \<longrightarrow> ''--numprocesses='' @ w \<in> set (encode c))
    \<and> (browser c = Some w \<and> w \<noteq> [] \<and> w \<noteq> ''none'' \<longrightarrow> ''--browser='' @ w \<in> set (encode c))
    \<and> (tracing c = Some w \<and> w \<noteq> [] \<and> w \<noteq> ''none'' \<longrightarrow> ''--tracing='' @ w \<in> set (encode c))
    \<and> (video c = Some w \<and> w \<noteq> [] \<and> w \<noteq> ''none'' \<longrightarrow> ''--video='' @ w \<in> set (encode c))"
proof -
  have none: "verbosity_token (verbosity c) = []"
    using assms by (simp add: verbosity_token_unknown)
  have "filter (token_for Verbosity) (encode c) = []"
    by (simp add: encode_tokens none filter_other_tokens)
  moreover have "encode c = encode (c\<lparr>verbosity := None\<rparr>)"
    by (simp add: encode_tokens none verbosity_token_absent)
  moreover have "tb c = Some w \<and> w \<noteq> [] \<and> w \<noteq> ''none'' \<longrightarrow> ''--tb='' @ w \<in> set (encode c)"
    by (simp add: encode_tokens value_token_present)
  moreover have "numprocesses c = Some w \<and> w \<noteq> [] \<and> w \<noteq> ''none''
        \<longrightarrow> ''--numprocesses='' @ w \<in> set (encode c)"
    by (simp add: encode_tokens value_token_present)
  moreover have "browser c = Some w \<and> w \<noteq> [] \<and> w \<noteq> ''none'' \<longrightarrow> ''--browser='' @ w \<in> set (encode c)"
    by (simp add: encode_tokens value_token_present)
  moreover have "tracing c = Some w \<and> w \<noteq> [] \<and> w \<noteq> ''none'' \<longrightarrow> ''--tracing='' @ w \<in> set (encode c)"
    by (simp add: encode_tokens value_token_present)
  moreover have "video c = Some w \<and> w \<noteq> [] \<and> w \<noteq> ''none'' \<longrightarrow> ''--video='' @ w \<in> set (encode c)"
    by (simp add: encode_tokens value_token_present)
  ultimately show ?thesis by blast
qed

theorem unknown_verbosity_dropped_witness:
  "encode (empty_config\<lparr>verbosity := Some ''loud'', tb := Some ''loud'', numprocesses := Some ''loud'',
      browser := Some ''loud'', tracing := Some ''loud'', video := Some ''loud''\<rparr>) =
     [''--tb=loud'', ''--numprocesses=loud'', ''--browser=loud'', ''--tracing=loud'', ''--video=loud'']
   \<and> ''loud'' \<notin> set verbosity_values
   \<and> filter (token_for Verbosity)
       (encode (empty_config\<lparr>verbosity := Some ''loud'', tb := Some ''loud'', numprocesses := Some ''loud'',
      browser := Some ''loud'', tracing := Some ''loud'', video := Some ''loud''\<rparr>)) = []"
proof -
  let ?c = "empty_config\<lparr>verbosity := Some ''loud'', tb := Some ''loud'', numprocesses := Some ''loud'',
      browser := Some ''loud'', tracing := Some ''loud'', video := Some ''loud''\<rparr>"
  have h1: "verbosity ?c = Some ''loud''" by simp
  have h2: "''loud'' \<notin> set verbosity_values" by (simp add: verbosity_values_def)
  have e: "encode ?c =
     [''--tb=loud'', ''--numprocesses=loud'', ''--browser=loud'', ''--tracing=loud'', ''--video=loud'']"
    by (simp add: encode_tokens empty_config_def value_token_def verbosity_token_def flag_token_def)
  show ?thesis
    using h2 e unknown_verbosity_dropped [OF h1 h2, of "''loud''"] by simp
qed

subsection \<open>Round trip\<close>

lemma foldl_value_tb:
  "absent_or plain_value v \<Longrightarrow> tb d = None \<Longrightarrow>
   foldl parseArg d (value_token ''--tb='' v) = d\<lparr>tb := v\<rparr>"
  using parseArg_tb [of d]
  by (cases v) (simp_all add: absent_or_def plain_value_def value_token_def takeWhile_no_sep)

lemma foldl_value_numprocesses:
  "absent_or plain_value v \<Longrightarrow> numprocesses d = None \<Longrightarrow>
   foldl parseArg d (value_token ''--numprocesses='' v) = d\<lparr>numprocesses := v\<rparr>"
  using parseArg_numprocesses [of d]
  by (cases v) (simp_all add: absent_or_def plain_value_def value_token_def takeWhile_no_sep)

lemma foldl_value_browser:
  "absent_or plain_value v \<Longrightarrow> browser d = None \<Longrightarrow>
   foldl parseArg d (value_token ''--browser='' v) = d\<lparr>browser := v\<rparr>"
  using parseArg_browser [of d]
  by (cases v) (simp_all add: absent_or_def plain_value_def value_token_def takeWhile_no_sep)

lemma foldl_value_tracing:
  "absent_or plain_value v \<Longrightarrow> tracing d = None \<Longrightarrow>
   foldl parseArg d (value_token ''--tracing='' v) = d\<lparr>tracing := v\<rparr>"
  using parseArg_tracing [of d]
  by (cases v) (simp_all add: absent_or_def plain_value_def value_token_def takeWhile_no_sep)

lemma foldl_value_video:
  "absent_or plain_value v \<Longrightarrow> video d = None \<Longrightarrow>
   foldl parseArg d (value_token ''--video='' v) = d\<lparr>video := v\<rparr>"
  using parseArg_video [of d]
  by (cases v) (simp_all add: absent_or_def plain_value_def value_token_def takeWhile_no_sep)

lemma foldl_verbosity:
  "absent_or (\<lambda>s. s \<in> set verbosity_values) v \<Longrightarrow> verbosity d = None \<Longrightarrow>
   foldl parseArg d (verbosity_token v) = d\<lparr>verbosity := v\<rparr>"
  by (cases v)
    (auto simp: absent_or_def verbosity_values_def verbosity_token_def parseArg_def)

lemma foldl_flag_captureOutput:
  "captureOutput d = None \<Longrightarrow>
   foldl parseArg d (flag_token ''-s'' b) = d\<lparr>captureOutput := on_or_unset b\<rparr>"
  by (simp add: flag_token_def parseArg_def on_or_unset_def)

lemma foldl_flag_showlocals:
  "showlocals d = None \<Longrightarrow>
   foldl parseArg d (flag_token ''--showlocals'' b) = d\<lparr>showlocals := on_or_unset b\<rparr>"
  by (simp add: flag_token_def parseArg_def on_or_unset_def)

lemma foldl_flag_headed:
  "headed d = None \<Longrightarrow>
   foldl parseArg d (flag_token ''--headed'' b) = d\<lparr>headed := on_or_unset b\<rparr>"
  by (simp add: flag_token_def parseArg_def on_or_unset_def)

lemma foldl_flag_delve:
  "delve d = None \<Longrightarrow>
   foldl parseArg d (flag_token ''--delve=1'' b) = d\<lparr>delve := on_or_unset b\<rparr>"
  by (simp add: flag_token_def parseArg_def on_or_unset_def)

lemma foldl_flag_slowmo:
  "slowmo d = None \<Longrightarrow>
   foldl parseArg d (flag_token ''--slowmo'' b) = d\<lparr>slowmo := on_or_unset b\<rparr>"
  by (simp add: flag_token_def parseArg_def on_or_unset_def)

lemmas foldl_tokens = foldl_value_tb foldl_value_numprocesses foldl_value_browser
  foldl_value_tracing foldl_value_video foldl_verbosity foldl_flag_captureOutput
  foldl_flag_showlocals foldl_flag_headed foldl_flag_delve foldl_flag_slowmo

lemma decode_encode_plain:
  assumes "absent_or plain_value (tb c)" "absent_or plain_value (numprocesses c)"
    "absent_or (\<lambda>s. s \<in> set verbosity_values) (verbosity c)"
    "absent_or plain_value (browser c)" "absent_or plain_value (tracing c)"
    "absent_or plain_value (video c)"
  shows "decode (encode c) =
    Inr \<lparr>tb = tb c, numprocesses = numprocesses c, verbosity = verbosity c,
      captureOutput = on_or_unset (captureOutput c), headed = on_or_unset (headed c),
      delve = on_or_unset (delve c), browser = browser c, slowmo = on_or_unset (slowmo c),
      tracing = tracing c, video = video c, showlocals = on_or_unset (showlocals c)\<rparr>"
  using assms
  by (simp add: decode_foldl encode_tokens foldl_tokens empty_config_def)

lemma absent_or_mono: "absent_or P v \<Longrightarrow> (\<And>s. P s \<Longrightarrow> Q s) \<Longrightarrow> absent_or Q v"
  by (cases v) (simp_all add: absent_or_def)

lemma not_digit: "\<not> digit CHR ''=''" "\<not> digit CHR ''n''"
  by (simp_all add: digit_def)

lemma digits_plain:
  assumes "s \<noteq> []" and "list_all digit s"
  shows "plain_value s"
proof -
  have "CHR ''='' \<notin> set s"
    using assms(2) not_digit(1) by (auto simp: list_all_iff)
  moreover have "s \<noteq> ''none''"
    using assms(2) not_digit(2) by auto
  ultimately show ?thesis
    using assms(1) by (simp add: plain_value_def)
qed

lemma numprocesses_value_plain:
  assumes "numprocesses_value s"
  shows "plain_value s"
proof (cases "s = ''auto''")
  case True
  then show ?thesis by (simp add: plain_value_def)
next
  case False
  with assms show ?thesis
    by (simp add: numprocesses_value_def digits_plain)
qed

lemma tb_values_plain: "s \<in> set tb_values \<Longrightarrow> plain_value s"
  by (auto simp: tb_values_def plain_value_def)

lemma browser_values_plain: "s \<in> set browser_values \<Longrightarrow> plain_value s"
  by (auto simp: browser_values_def plain_value_def)

lemma recording_values_plain: "s \<in> set recording_values \<Longrightarrow> plain_value s"
  by (auto simp: recording_values_def plain_value_def)

lemma on_or_unset_truthy: "truthy_bool (on_or_unset b) = truthy_bool b"
  by (cases b) (auto simp: on_or_unset_def truthy_bool_def)

lemma on_or_unset_id: "b \<noteq> Some False \<Longrightarrow> on_or_unset b = b"
  by (cases b) (auto simp: on_or_unset_def)

text \<open>
  Claim C1.  For a configuration whose string fields are absent or hold a value of
  their documented domain (so none holds the sentinel \<open>none\<close>; the single verbosity
  field cannot hold conflicting flags), decoding the encoded list succeeds and yields
  a configuration semantically equal to the original: the same strings, and each
  boolean on in both or off in both.  When, moreover, no boolean is an explicit
  \<open>false\<close> (off is written as unset, the zero state of the decoder), the result is the
  original configuration itself.
\<close>

theorem round_trip:
  assumes "documented_domain c"
  shows "\<exists>d. decode (encode c) = Inr d \<and> sem_eq d c \<and> (unset_when_off c \<longrightarrow> d = c)"
proof -
  let ?d = "\<lparr>tb = tb c, numprocesses = numprocesses c, verbosity = verbosity c,
      captureOutput = on_or_unset (captureOutput c), headed = on_or_unset (headed c),
      delve = on_or_unset (delve c), browser = browser c, slowmo = on_or_unset (slowmo c),
      tracing = tracing c, video = video c, showlocals = on_or_unset (showlocals c)\<rparr>"
  from assms have dom:
    "absent_or plain_value (tb c)" "absent_or plain_value (numprocesses c)"
    "absent_or (\<lambda>s. s \<in> set verbosity_values) (verbosity c)"
    "absent_or plain_value (browser c)" "absent_or plain_value (tracing c)"
    "absent_or plain_value (video c)"
    unfolding documented_domain_def
    by (blast intro: absent_or_mono tb_values_plain numprocesses_value_plain
        browser_values_plain recording_values_plain)+
  have "decode (encode c) = Inr ?d"
    using dom by (rule decode_encode_plain)
  moreover have "sem_eq ?d c"
    by (simp add: sem_eq_def on_or_unset_truthy)
  moreover have "?d = c" if "unset_when_off c"
    using that by (cases c) (simp add: unset_when_off_def on_or_unset_id)
  ultimately show ?thesis by blast
qed

theorem round_trip_witness:
  "documented_domain
     \<lparr>tb = Some ''short'', numprocesses = Some ''12'', verbosity = Some ''verbose'',
      captureOutput = Some True, headed = None, delve = None, browser = Some ''webkit'',
      slowmo = Some True, tracing = None, video = Some ''retain-on-failure'',
      showlocals = None\<rparr>
   \<and> unset_when_off
     \<lparr>tb = Some ''short'', numprocesses = Some ''12'', verbosity = Some ''verbose'',
      captureOutput = Some True, headed = None, delve = None, browser = Some ''webkit'',
      slowmo = Some True, tracing = None, video = Some ''retain-on-failure'',
      showlocals = None\<rparr>
   \<and> decode (encode
     \<lparr>tb = Some ''short'', numprocesses = Some ''12'', verbosity = Some ''verbose'',
      captureOutput = Some True, headed = None, delve = None, browser = Some ''webkit'',
      slowmo = Some True, tracing = None, video = Some ''retain-on-failure'',
      showlocals = None\<rparr>) =
     Inr \<lparr>tb = Some ''short'', numprocesses = Some ''12'', verbosity = Some ''verbose'',
      captureOutput = Some True, headed = None, delve = None, browser = Some ''webkit'',
      slowmo = Some True, tracing = None, video = Some ''retain-on-failure'',
      showlocals = None\<rparr>"
proof -
  let ?c = "\<lparr>tb = Some ''short'', numprocesses = Some ''12'', verbosity = Some ''verbose'',
      captureOutput = Some True, headed = None, delve = None, browser = Some ''webkit'',
      slowmo = Some True, tracing = None, video = Some ''retain-on-failure'',
      showlocals = None\<rparr>"
  have h1: "documented_domain ?c"
    by (simp add: documented_domain_def absent_or_def tb_values_def numprocesses_value_def
        digit_def verbosity_values_def browser_values_def recording_values_def)
  have h2: "unset_when_off ?c"
    by (simp add: unset_when_off_def)
  from round_trip [OF h1] h2 have "decode (encode ?c) = Inr ?c"
    by auto
  with h1 h2 show ?thesis by blast
qed

end
